theory Spec2Isabelle
  imports Complex_Main "HOL-Library.AList"
begin

section \<open>Python text primitives used by \<open>python/ode_solver.py\<close>\<close>

text \<open>
  Text is modelled as \<^typ>\<open>string\<close>; a character stands for the code point of the same
  number, so the model covers text over the code points 0 to 255.
\<close>

definition NL :: char where
  "NL = CHR 0x0A"

definition CR :: char where
  "CR = CHR 0x0D"

definition isspace :: "char \<Rightarrow> bool" where
  \<comment> \<open>\<open>str.isspace\<close> on one character: the code points that \<open>str.strip()\<close> removes.\<close>
  "isspace c =
     (let n = (of_char c :: nat)
      in (9 \<le> n \<and> n \<le> 13) \<or> (28 \<le> n \<and> n \<le> 32) \<or> n = 133 \<or> n = 160)"

definition strip :: "string \<Rightarrow> string" where
  \<comment> \<open>\<open>s.strip()\<close>\<close>
  "strip s = rev (dropWhile isspace (rev (dropWhile isspace s)))"

fun split_on :: "char \<Rightarrow> string \<Rightarrow> string list" where
  \<comment> \<open>\<open>s.split(sep)\<close> for a separator of one character: never the empty list.\<close>
  "split_on sep [] = [[]]"
| "split_on sep (c # cs) =
     (let r = split_on sep cs
      in if c = sep then [] # r else (c # hd r) # tl r)"

definition startswith :: "string \<Rightarrow> string \<Rightarrow> bool" where
  \<comment> \<open>\<open>s.startswith(p)\<close>\<close>
  "startswith s p = (take (length p) s = p)"

section \<open>The output parser inside \<open>FortranODESolver.solve\<close>\<close>

text \<open>
  The builtin \<open>float\<close> is a parameter of the model: \<open>Inr x\<close> is the number read,
  \<open>Inl msg\<close> is a \<open>ValueError\<close> with that message.
\<close>

type_synonym 'f pyfloat = "string \<Rightarrow> string + 'f"

definition lines_of :: "string \<Rightarrow> string list" where
  \<comment> \<open>\<open>lines = result.stdout.strip().split("\n")\<close>\<close>
  "lines_of stdout = split_on NL (strip stdout)"

definition is_data_line :: "string \<Rightarrow> bool" where
  \<comment> \<open>the filter of the list comprehension:
      \<open>line and not line.strip().startswith("t,y")\<close>\<close>
  "is_data_line line = (line \<noteq> [] \<and> \<not> startswith (strip line) ''t,y'')"

definition data_lines :: "string list \<Rightarrow> string list" where
  "data_lines lines = filter is_data_line lines"

definition parts_of :: "string \<Rightarrow> string list" where
  \<comment> \<open>\<open>parts = line.strip().split(",")\<close>\<close>
  "parts_of line = split_on (CHR '','') (strip line)"

fun parse_rows ::
  "'f pyfloat \<Rightarrow> string list \<Rightarrow> 'f list \<Rightarrow> 'f list \<Rightarrow> string + ('f list \<times> 'f list)" where
  \<comment> \<open>the \<open>for line in data_lines\<close> loop; \<open>t_vals\<close> and \<open>y_vals\<close> are the accumulators,
      and a \<open>ValueError\<close> of \<open>float\<close> leaves the loop.\<close>
  "parse_rows pf [] t_vals y_vals = Inr (t_vals, y_vals)"
| "parse_rows pf (line # rest) t_vals y_vals =
     (let parts = parts_of line
      in if length parts = 2 then
           (case pf (parts ! 0) of
              Inl msg \<Rightarrow> Inl msg
            | Inr t \<Rightarrow>
                (case pf (parts ! 1) of
                   Inl msg \<Rightarrow> Inl msg
                 | Inr y \<Rightarrow> parse_rows pf rest (t_vals @ [t]) (y_vals @ [y])))
         else parse_rows pf rest t_vals y_vals)"

definition parse_lines :: "'f pyfloat \<Rightarrow> string list \<Rightarrow> string + ('f list \<times> 'f list)" where
  \<comment> \<open>lines 104 to 116 of \<open>solve\<close>: from the split lines to the two lists.\<close>
  "parse_lines pf lines = parse_rows pf (data_lines lines) [] []"

definition parse_output :: "'f pyfloat \<Rightarrow> string \<Rightarrow> string + ('f list \<times> 'f list)" where
  \<comment> \<open>lines 103 to 116 of \<open>solve\<close>: from the captured standard output to the two lists.\<close>
  "parse_output pf stdout = parse_lines pf (lines_of stdout)"

subsection \<open>A concrete reader for decimal literals\<close>

text \<open>
  An instance of the \<open>float\<close> parameter for evaluating examples. It reads what \<open>float\<close>
  reads on plain decimal literals (surrounding white space, an optional sign, digits with
  an optional point) and raises on every other text; the value is the exact rational, not
  the nearest double.
\<close>

definition is_digit :: "char \<Rightarrow> bool" where
  "is_digit c = (let n = (of_char c :: nat) in 48 \<le> n \<and> n \<le> 57)"

definition digits_val :: "string \<Rightarrow> int" where
  "digits_val ds = foldl (\<lambda>acc c. 10 * acc + (int (of_char c) - 48)) 0 ds"

definition unsigned_dec :: "string \<Rightarrow> rat option" where
  "unsigned_dec s =
     (let ip = takeWhile is_digit s; r = dropWhile is_digit s
      in case r of
           [] \<Rightarrow> (if ip = [] then None else Some (of_int (digits_val ip)))
         | c # fp \<Rightarrow>
             (if c = CHR ''.'' \<and> list_all is_digit fp \<and> (ip \<noteq> [] \<or> fp \<noteq> [])
              then Some (of_int (digits_val (ip @ fp)) / 10 ^ length fp)
              else None))"

definition float_dec :: "rat pyfloat" where
  "float_dec s =
     (let b = strip s;
          r = (case b of
                 [] \<Rightarrow> None
               | c # cs \<Rightarrow>
                   (if c = CHR ''-'' then map_option uminus (unsigned_dec cs)
                    else if c = CHR ''+'' then unsigned_dec cs
                    else unsigned_dec b))
      in case r of
           None \<Rightarrow> Inl (''could not convert string to float: '' @ [CHR 0x27] @ s @ [CHR 0x27])
         | Some x \<Rightarrow> Inr x)"

section \<open>Errors, the environment and the world\<close>

datatype error =
    FileNotFoundError string
  | RuntimeError string
  | TypeError string  \<comment> \<open>the unexpected keyword argument\<close>
  | OSError string

text \<open>
  What the backend does once it is started: it cannot be run at all (\<open>subprocess.run\<close>
  raises something else than a timeout or a non-zero exit, with that message), or it runs,
  exits after a number of seconds (never, for \<open>None\<close>), and leaves an exit code and the
  text of its two output streams. The time of the exit is the time at which
  \<open>Popen.communicate\<close> sees the child end: the process is over and its output streams are
  closed.
\<close>

datatype process =
    CannotRun string
  | Process (exit_after: "nat option") (returncode: int) (out: string) (err: string)

datatype run_result =
    CompletedProcess string
  | TimeoutExpired
  | CalledProcessError string
  | OtherException string

record world =
  spawned :: "string list list"  \<comment> \<open>every command handed to \<open>subprocess.run\<close>, oldest first\<close>
  running :: "nat list"
    \<comment> \<open>the child processes alive; child \<open>n\<close> is the one started with the n-th command\<close>
  killed :: "nat list"  \<comment> \<open>the children that \<open>Popen.kill\<close> was called on, oldest first\<close>
  files :: "string \<rightharpoonup> string"  \<comment> \<open>the files written, by path\<close>

record 'f env =
  path_exists :: "string \<Rightarrow> bool"  \<comment> \<open>\<open>Path.exists\<close>\<close>
  module_candidate :: string
    \<comment> \<open>\<open>Path(__file__).parent.parent / "build" / "ode_solver"\<close>\<close>
  backend :: "nat \<Rightarrow> string list \<Rightarrow> process"
    \<comment> \<open>the behaviour of the n-th child (counted from 0) started with a command\<close>
  open_error :: "string \<Rightarrow> string option"
    \<comment> \<open>the \<open>OSError\<close> of opening a path for writing, if any\<close>
  float_of :: "'f pyfloat"  \<comment> \<open>the builtin \<open>float\<close>\<close>
  float_str :: "'f \<Rightarrow> string"  \<comment> \<open>\<open>str\<close> of a float, as \<open>csv.writer\<close> writes it\<close>

definition timed_out :: "nat \<Rightarrow> nat option \<Rightarrow> bool" where
  \<comment> \<open>the child has not exited within the timeout\<close>
  "timed_out timeout d = (case d of None \<Rightarrow> True | Some n \<Rightarrow> timeout < n)"

text \<open>
  The three steps of \<open>subprocess.run\<close>, as the standard library documents them.
  \<open>Popen\<close> starts the child. \<open>Popen.communicate\<close> with a timeout waits for the child to
  end; when the timeout expires it raises and does not kill the child. \<open>subprocess.run\<close>
  catches that, calls \<open>Popen.kill\<close>, waits for the child and raises again.
\<close>

definition popen :: "string list \<Rightarrow> world \<Rightarrow> nat \<times> world" where
  \<comment> \<open>\<open>Popen(argv, ...)\<close>: the number of the new child, which is alive.\<close>
  "popen argv w =
     (length (spawned w),
      w\<lparr>spawned := spawned w @ [argv], running := length (spawned w) # running w\<rparr>)"

definition communicate :: "nat option \<Rightarrow> nat \<Rightarrow> nat \<Rightarrow> world \<Rightarrow> bool \<times> world" where
  \<comment> \<open>\<open>process.communicate(timeout=...)\<close> on a child that ends after the given time:
      \<open>True\<close> when the child has ended by itself in time (it is no longer alive),
      \<open>False\<close> for \<open>TimeoutExpired\<close>, the child being left as it is.\<close>
  "communicate d timeout pid w =
     (if timed_out timeout d then (False, w)
      else (True, w\<lparr>running := removeAll pid (running w)\<rparr>))"

definition kill_wait :: "nat \<Rightarrow> world \<Rightarrow> world" where
  \<comment> \<open>\<open>process.kill(); process.wait()\<close>\<close>
  "kill_wait pid w = w\<lparr>running := removeAll pid (running w), killed := killed w @ [pid]\<rparr>"

definition subprocess_run ::
  "'f env \<Rightarrow> string list \<Rightarrow> nat \<Rightarrow> world \<Rightarrow> run_result \<times> world" where
  \<comment> \<open>\<open>subprocess.run(argv, capture_output=True, text=True, timeout=..., check=True)\<close>:
      the child is started and waited for up to the timeout; when the timeout expires the
      child is killed and \<open>TimeoutExpired\<close> raised; a non-zero exit code raises
      \<open>CalledProcessError\<close>.\<close>
  "subprocess_run env argv timeout w =
     (case backend env (length (spawned w)) argv of
        CannotRun msg \<Rightarrow> (OtherException msg, w\<lparr>spawned := spawned w @ [argv]\<rparr>)
      | Process d rc stdout stderr \<Rightarrow>
          (let (pid, w1) = popen argv w;
               (ended, w2) = communicate d timeout pid w1
           in if \<not> ended then (TimeoutExpired, kill_wait pid w2)
              else if rc \<noteq> 0 then (CalledProcessError stderr, w2)
              else (CompletedProcess stdout, w2)))"

section \<open>\<open>FortranODESolver\<close>\<close>

record solver =
  executable_path :: string

definition search_paths :: "'f env \<Rightarrow> string list" where
  \<comment> \<open>\<open>Path("./ode_solver")\<close> is the path \<open>ode_solver\<close>.\<close>
  "search_paths env = [''build/ode_solver'', ''ode_solver'', module_candidate env]"

definition not_found_message :: string where
  "not_found_message =
     ''Could not find ode_solver executable. Have you run '' @ [CHR 0x27] @
     ''cmake .. && cmake --build .'' @ [CHR 0x27] @ '' in the build directory?''"

definition init :: "'f env \<Rightarrow> string option \<Rightarrow> world \<Rightarrow> (error + solver) \<times> world" where
  \<comment> \<open>\<open>FortranODESolver.__init__\<close>\<close>
  "init env path w =
     (case (case path of
              None \<Rightarrow> find (path_exists env) (search_paths env)
            | Some p \<Rightarrow> Some p) of
        None \<Rightarrow> (Inl (FileNotFoundError not_found_message), w)
      | Some p \<Rightarrow>
          if \<not> path_exists env p
          then (Inl (FileNotFoundError (''Executable not found: '' @ p)), w)
          else (Inr \<lparr>executable_path = p\<rparr>, w))"

text \<open>
  The four keyword parameters of \<open>solve\<close>; \<open>None\<close> is a parameter left at its default
  (0.0, 10.0, 1.0 and 100).
\<close>

record 'v solve_args =
  t0 :: "'v option"
  tf :: "'v option"
  y0 :: "'v option"
  n_steps :: "'v option"

definition solve ::
  "'f env \<Rightarrow> solver \<Rightarrow> 'v solve_args \<Rightarrow> world \<Rightarrow> (error + 'f list \<times> 'f list) \<times> world" where
  \<comment> \<open>\<open>FortranODESolver.solve\<close>: the \<open>try\<close> block and its three handlers.\<close>
  "solve env self args w =
     (case subprocess_run env [executable_path self] 30 w of
        (TimeoutExpired, w') \<Rightarrow> (Inl (RuntimeError ''Fortran solver timed out''), w')
      | (CalledProcessError stderr, w') \<Rightarrow>
          (Inl (RuntimeError (''Fortran solver failed: '' @ stderr)), w')
      | (OtherException msg, w') \<Rightarrow>
          (Inl (RuntimeError (''Error running Fortran solver: '' @ msg)), w')
      | (CompletedProcess stdout, w') \<Rightarrow>
          (case parse_output (float_of env) stdout of
             Inl msg \<Rightarrow> (Inl (RuntimeError (''Error running Fortran solver: '' @ msg)), w')
           | Inr series \<Rightarrow> (Inr series, w')))"

definition solve_params :: "string list" where
  "solve_params = [''t0'', ''tf'', ''y0'', ''n_steps'']"

definition call_solve ::
  "'f env \<Rightarrow> solver \<Rightarrow> (string \<times> 'v) list \<Rightarrow> world
     \<Rightarrow> (error + 'f list \<times> 'f list) \<times> world" where
  \<comment> \<open>\<open>solver.solve(**kwargs)\<close>: a keyword that \<open>solve\<close> does not have is a \<open>TypeError\<close>
      of the call, raised before the body runs.\<close>
  "call_solve env self kwargs w =
     (case find (\<lambda>k. k \<notin> set solve_params) (map fst kwargs) of
        Some k \<Rightarrow> (Inl (TypeError k), w)
      | None \<Rightarrow>
          solve env self
            \<lparr>t0 = map_of kwargs ''t0'', tf = map_of kwargs ''tf'',
             y0 = map_of kwargs ''y0'', n_steps = map_of kwargs ''n_steps''\<rparr> w)"

subsection \<open>\<open>solve_to_file\<close>\<close>

fun join :: "string \<Rightarrow> string list \<Rightarrow> string" where
  \<comment> \<open>\<open>sep.join(parts)\<close>\<close>
  "join sep [] = []"
| "join sep [p] = p"
| "join sep (p # q # ps) = p @ sep @ join sep (q # ps)"

definition csv_field :: "string \<Rightarrow> string" where
  \<comment> \<open>a field under \<open>QUOTE_MINIMAL\<close>: quoted, with quotes doubled, when it holds the
      delimiter, the quote character or a character of the line terminator.\<close>
  "csv_field s =
     (if \<exists>c \<in> set s. c = CHR '','' \<or> c = CHR 0x22 \<or> c = CR \<or> c = NL
      then [CHR 0x22] @ concat (map (\<lambda>c. if c = CHR 0x22 then [c, c] else [c]) s) @ [CHR 0x22]
      else s)"

definition writerow :: "string list \<Rightarrow> string" where
  \<comment> \<open>\<open>csv.writer(f).writerow(row)\<close> in the default dialect, for fields already text.\<close>
  "writerow row = join '','' (map csv_field row) @ [CR, NL]"

definition csv_text :: "'f env \<Rightarrow> 'f list \<Rightarrow> 'f list \<Rightarrow> string" where
  \<comment> \<open>what the \<open>with\<close> block writes: the header row, then one row per pair of the zip.\<close>
  "csv_text env t_vals y_vals =
     writerow [''t'', ''y''] @
     concat (map (\<lambda>(t, y). writerow [float_str env t, float_str env y]) (zip t_vals y_vals))"

definition solve_to_file ::
  "'f env \<Rightarrow> solver \<Rightarrow> string \<Rightarrow> (string \<times> 'v) list \<Rightarrow> world \<Rightarrow> (error + string) \<times> world" where
  "solve_to_file env self output_path kwargs w =
     (case call_solve env self kwargs w of
        (Inl e, w') \<Rightarrow> (Inl e, w')
      | (Inr (t_vals, y_vals), w') \<Rightarrow>
          (case open_error env output_path of
             Some msg \<Rightarrow> (Inl (OSError msg), w')
           | None \<Rightarrow>
               (Inr output_path,
                w'\<lparr>files := (files w')(output_path \<mapsto> csv_text env t_vals y_vals)\<rparr>)))"

section \<open>\<open>parameter_sweep\<close>\<close>

fun sweep_loop ::
  "'f env \<Rightarrow> solver \<Rightarrow> string \<Rightarrow> (string \<times> 'v) list \<Rightarrow> 'v list
     \<Rightarrow> ('v \<times> 'f list \<times> 'f list) list \<Rightarrow> world
     \<Rightarrow> (error + ('v \<times> 'f list \<times> 'f list) list) \<times> world" where
  \<comment> \<open>the \<open>for value in param_values\<close> loop, \<open>results\<close> being the accumulator; an exception
      of \<open>solve\<close> leaves the loop and the function.\<close>
  "sweep_loop env solver param_name base_kwargs [] results w = (Inr results, w)"
| "sweep_loop env solver param_name base_kwargs (v # rest) results w =
     (let kwargs = AList.update param_name v base_kwargs
      in case call_solve env solver kwargs w of
           (Inl e, w') \<Rightarrow> (Inl e, w')
         | (Inr (t_vals, y_vals), w') \<Rightarrow>
             sweep_loop env solver param_name base_kwargs rest
               (results @ [(v, t_vals, y_vals)]) w')"

definition parameter_sweep ::
  "'f env \<Rightarrow> string \<Rightarrow> 'v list \<Rightarrow> solver \<Rightarrow> (string \<times> 'v) list \<Rightarrow> world
     \<Rightarrow> (error + ('v \<times> 'f list \<times> 'f list) list) \<times> world" where
  "parameter_sweep env param_name param_values solver base_kwargs w =
     sweep_loop env solver param_name base_kwargs param_values [] w"

section \<open>Concrete environments for evaluation\<close>

definition demo_str :: "rat \<Rightarrow> string" where
  \<comment> \<open>\<open>str\<close> on the sample values of the examples (and some text elsewhere).\<close>
  "demo_str x =
     (if x = 0 then ''0.0'' else if x = 1 then ''1.0''
      else if x = 606531 / 1000000 then ''0.606531'' else ''nan'')"

definition scripted_env :: "process list \<Rightarrow> rat env" where
  \<comment> \<open>Only \<open>build/ode_solver\<close> exists; the n-th child behaves as the n-th entry says.\<close>
  "scripted_env ps =
     \<lparr>path_exists = (\<lambda>p. p = ''build/ode_solver''),
      module_candidate = ''/srv/app/build/ode_solver'',
      backend = (\<lambda>n argv.
        if n < length ps \<and> argv = [''build/ode_solver''] then ps ! n
        else CannotRun ''[Errno 2] No such file or directory''),
      open_error = (\<lambda>p. None),
      float_of = float_dec,
      float_str = demo_str\<rparr>"

definition demo_stdout :: string where
  "demo_stdout =
     ''t,y'' @ [NL] @ ''0.000000,1.000000'' @ [NL] @ ''1.000000,0.606531'' @ [NL]"

definition healthy :: process where
  "healthy = Process (Some 1) 0 demo_stdout []"

definition hanging :: process where
  "hanging = Process None 0 [] []"

definition world0 :: world where
  "world0 = \<lparr>spawned = [], running = [], killed = [], files = Map.empty\<rparr>"


definition default_args :: "rat solve_args" where
  "default_args = \<lparr>t0 = None, tf = None, y0 = None, n_steps = None\<rparr>"

definition mixed_stdout :: string where
  "mixed_stdout =
     ''t,y'' @ [NL] @ ''0.0,1.0'' @ [NL] @ ''# step 1'' @ [NL] @ [NL] @ ''1,2,3'' @ [NL] @
     '' 1.0 , 0.5'' @ [CR, NL]"

definition garbled_stdout :: string where
  "garbled_stdout = ''t,y'' @ [NL] @ ''0.0,1.0'' @ [NL] @ ''foo,bar'' @ [NL]"

definition garbled :: process where
  "garbled = Process (Some 1) 0 garbled_stdout []"

definition interleaved_stdout :: string where
  "interleaved_stdout =
     ''t,y'' @ [NL] @ ''0.0,1.0'' @ [NL] @ ''n/a,n/a'' @ [NL] @ ''1.0,0.5'' @ [NL]"

section \<open>Predicates of the specification\<close>

definition well_formed :: "'f pyfloat \<Rightarrow> string \<Rightarrow> bool" where
  \<comment> \<open>a line the loop reads a sample from: kept by the filter, of exactly two fields, both
      read by \<open>float\<close>\<close>
  "well_formed pf l =
     (is_data_line l \<and> length (parts_of l) = 2 \<and>
      \<not> isl (pf (parts_of l ! 0)) \<and> \<not> isl (pf (parts_of l ! 1)))"

definition unreadable :: "'f pyfloat \<Rightarrow> string \<Rightarrow> bool" where
  \<comment> \<open>a line of exactly two fields of which one is not read by \<open>float\<close>\<close>
  "unreadable pf l =
     (length (parts_of l) = 2 \<and> (isl (pf (parts_of l ! 0)) \<or> isl (pf (parts_of l ! 1))))"

definition sample_of :: "'f pyfloat \<Rightarrow> string \<Rightarrow> 'f \<times> 'f" where
  \<comment> \<open>the pair of numbers on a well-formed line\<close>
  "sample_of pf l = (projr (pf (parts_of l ! 0)), projr (pf (parts_of l ! 1)))"

definition solve_calls_succeed ::
  "'f env \<Rightarrow> string \<Rightarrow> 'v list \<Rightarrow> solver \<Rightarrow> (string \<times> 'v) list \<Rightarrow> world \<Rightarrow> bool" where
  \<comment> \<open>every \<open>solve\<close> call of the sweep succeeds: the call for the i-th value, made in the
      world that the sweep over the values before it leaves, does not raise.\<close>
  "solve_calls_succeed env name vals s base w =
     (\<forall>i < length vals. \<forall>res w1.
        parameter_sweep env name (take i vals) s base w = (Inr res, w1) \<longrightarrow>
        \<not> isl (fst (call_solve env s (AList.update name (vals ! i) base) w1)))"

definition is_float_char :: "char \<Rightarrow> bool" where
  \<comment> \<open>the characters of the text of a float: digits, point, exponent mark, signs, and the
      letters of \<open>inf\<close> and \<open>nan\<close>\<close>
  "is_float_char c = (is_digit c \<or> c \<in> set ''.e+-infa'')"

definition roundtrips :: "'f env \<Rightarrow> 'f \<Rightarrow> bool" where
  \<comment> \<open>text formatting loses nothing of \<open>x\<close>: its text is not empty, made of the characters
      of a float, and \<open>float\<close> reads \<open>x\<close> back from it\<close>
  "roundtrips env x =
     (float_str env x \<noteq> [] \<and> list_all is_float_char (float_str env x) \<and>
      float_of env (float_str env x) = Inr x)"

definition row_text :: "'f env \<Rightarrow> 'f \<times> 'f \<Rightarrow> string" where
  \<comment> \<open>the row of a sample, without its line terminator\<close>
  "row_text env p = float_str env (fst p) @ CHR '','' # float_str env (snd p)"

section \<open>Properties\<close>

subsection \<open>Running the backend\<close>

lemmas run_steps = subprocess_run_def popen_def communicate_def kill_wait_def Let_def

lemma subprocess_run_spawned:
  "spawned (snd (subprocess_run env argv t w)) = spawned w @ [argv]"
  by (simp add: run_steps split: process.splits)



lemma subprocess_run_files:
  "files (snd (subprocess_run env argv t w)) = files w"
  by (simp add: run_steps split: process.splits)

lemma fst_subprocess_run:
  "fst (subprocess_run env argv t w) =
     (case backend env (length (spawned w)) argv of
        CannotRun msg \<Rightarrow> OtherException msg
      | Process d rc stdout stderr \<Rightarrow>
          if timed_out t d then TimeoutExpired
          else if rc \<noteq> 0 then CalledProcessError stderr
          else CompletedProcess stdout)"
  by (simp add: run_steps split: process.splits)

lemma snd_solve:
  "snd (solve env self args w) = snd (subprocess_run env [executable_path self] 30 w)"
  by (simp add: solve_def split: prod.splits run_result.splits sum.splits)

lemma fst_solve:
  "fst (solve env self args w) =
     (case fst (subprocess_run env [executable_path self] 30 w) of
        TimeoutExpired \<Rightarrow> Inl (RuntimeError ''Fortran solver timed out'')
      | CalledProcessError stderr \<Rightarrow> Inl (RuntimeError (''Fortran solver failed: '' @ stderr))
      | OtherException msg \<Rightarrow> Inl (RuntimeError (''Error running Fortran solver: '' @ msg))
      | CompletedProcess stdout \<Rightarrow>
          (case parse_output (float_of env) stdout of
             Inl msg \<Rightarrow> Inl (RuntimeError (''Error running Fortran solver: '' @ msg))
           | Inr series \<Rightarrow> Inr series))"
  by (simp add: solve_def split: prod.splits run_result.splits sum.splits)

lemmas eval_text =
  parse_output_def parse_lines_def lines_of_def data_lines_def is_data_line_def parts_of_def
  strip_def isspace_def NL_def CR_def startswith_def float_dec_def unsigned_dec_def
  is_digit_def digits_val_def

lemmas eval_env =
  scripted_env_def healthy_def hanging_def world0_def default_args_def
  solve_def run_steps timed_out_def



lemma parse_rows_lengths:
  "parse_rows pf ls ts ys = Inr (ts', ys') \<Longrightarrow> length ts = length ys \<Longrightarrow> length ts' = length ys'"
proof (induction ls arbitrary: ts ys)
  case Nil
  then show ?case by simp
next
  case (Cons l ls)
  then show ?case
    by (auto simp: Let_def split: if_splits sum.splits)
qed

lemma parse_output_lengths:
  "parse_output pf stdout = Inr (ts, ys) \<Longrightarrow> length ts = length ys"
  unfolding parse_output_def parse_lines_def
  using parse_rows_lengths [of pf _ "[]" "[]" ts ys] by simp

lemma solve_lengths:
  "fst (solve env self args w) = Inr (ts, ys) \<Longrightarrow> length ts = length ys"
  by (auto simp: fst_solve split: run_result.splits sum.splits dest: parse_output_lengths)

text \<open>
  C9. For every successful \<open>solve\<close> call, whatever the backend printed, the returned time
  list and value list have equal length, and that length is at least zero.
\<close>

theorem solve_equal_lengths:
  assumes "solve env self args w = (Inr (t_vals, y_vals), w')"
  shows "length t_vals = length y_vals \<and> 0 \<le> length t_vals"
  using assms solve_lengths [of env self args w t_vals y_vals] by simp

lemma demo_parse: "parse_output float_dec demo_stdout = Inr ([0, 1], [1, 606531 / 1000000])"
  by (simp add: demo_stdout_def eval_text)

lemma solve_healthy:
  "solve (scripted_env [healthy]) \<lparr>executable_path = ''build/ode_solver''\<rparr> default_args world0 =
     (Inr ([0, 1], [1, 606531 / 1000000]),
      \<lparr>spawned = [[''build/ode_solver'']], running = [], killed = [], files = Map.empty\<rparr>)"
  by (simp add: eval_env demo_parse)

theorem solve_equal_lengths_witness:
  "solve (scripted_env [healthy]) \<lparr>executable_path = ''build/ode_solver''\<rparr> default_args world0 =
     (Inr ([0, 1], [1, 606531 / 1000000]),
      \<lparr>spawned = [[''build/ode_solver'']], running = [], killed = [], files = Map.empty\<rparr>) \<and>
   length [0, 1 :: rat] = length [1, 606531 / 1000000 :: rat] \<and> 0 \<le> length [0, 1 :: rat]"
  using solve_healthy solve_equal_lengths [OF solve_healthy] by simp

text \<open>
  C5. An explicitly supplied executable path that does not exist makes the construction of
  the solver fail with \<open>FileNotFoundError\<close>, the world being as it was (no child process
  has been started); and every solver that is constructed holds a path that exists.
\<close>

theorem init_explicit_missing:
  "(\<not> path_exists env p \<longrightarrow>
      init env (Some p) w = (Inl (FileNotFoundError (''Executable not found: '' @ p)), w)) \<and>
   (init env path w = (Inr self, w') \<longrightarrow> path_exists env (executable_path self) \<and> w' = w)"
  by (auto simp: init_def split: option.splits if_splits)

theorem init_explicit_missing_witness:
  "\<not> path_exists (scripted_env []) ''bin/missing'' \<and>
   init (scripted_env []) (Some ''bin/missing'') world0 =
     (Inl (FileNotFoundError ''Executable not found: bin/missing''), world0) \<and>
   init (scripted_env []) None world0 = (Inr \<lparr>executable_path = ''build/ode_solver''\<rparr>, world0) \<and>
   path_exists (scripted_env []) (executable_path \<lparr>executable_path = ''build/ode_solver''\<rparr>)"
proof -
  have a: "\<not> path_exists (scripted_env []) ''bin/missing''"
    by (simp add: scripted_env_def)
  have b: "init (scripted_env []) None world0 =
             (Inr \<lparr>executable_path = ''build/ode_solver''\<rparr>, world0)"
    by (simp add: init_def search_paths_def scripted_env_def)
  from init_explicit_missing [of "scripted_env []" "''bin/missing''" world0 None
      "\<lparr>executable_path = ''build/ode_solver''\<rparr>" world0] a b
  show ?thesis by simp
qed



subsection \<open>The sweep\<close>

lemma sweep_loop_append:
  "sweep_loop env s name base (xs @ zs) acc w =
     (case sweep_loop env s name base xs acc w of
        (Inl e, w') \<Rightarrow> (Inl e, w')
      | (Inr res, w') \<Rightarrow> sweep_loop env s name base zs res w')"
  by (induction xs arbitrary: acc w) (auto simp: Let_def split: prod.splits sum.splits)

lemma sweep_loop_values:
  "sweep_loop env s name base vals acc w = (Inr res, w') \<Longrightarrow> map fst res = map fst acc @ vals"
  by (induction vals arbitrary: acc w) (auto simp: Let_def split: prod.splits sum.splits)

lemma parameter_sweep_snoc:
  "parameter_sweep env name (xs @ [v]) s base w =
     (case parameter_sweep env name xs s base w of
        (Inl e, w') \<Rightarrow> (Inl e, w')
      | (Inr res, w') \<Rightarrow>
          (case call_solve env s (AList.update name v base) w' of
             (Inl e, w'') \<Rightarrow> (Inl e, w'')
           | (Inr (ts, ys), w'') \<Rightarrow> (Inr (res @ [(v, ts, ys)]), w'')))"
  by (simp add: parameter_sweep_def sweep_loop_append Let_def split: prod.splits sum.splits)

lemma sweep_succeeds:
  "solve_calls_succeed env name vals s base w \<Longrightarrow>
   \<exists>results w'. parameter_sweep env name vals s base w = (Inr results, w')"
proof (induction vals rule: rev_induct)
  case Nil
  then show ?case by (simp add: parameter_sweep_def)
next
  case (snoc v xs)
  have "solve_calls_succeed env name xs s base w"
    unfolding solve_calls_succeed_def
  proof (intro allI impI)
    fix i res w1
    assume i: "i < length xs"
      and p: "parameter_sweep env name (take i xs) s base w = (Inr res, w1)"
    from i have "i < length (xs @ [v])" by simp
    moreover from i p have "parameter_sweep env name (take i (xs @ [v])) s base w = (Inr res, w1)"
      by simp
    ultimately have "\<not> isl (fst (call_solve env s (AList.update name ((xs @ [v]) ! i) base) w1))"
      using snoc.prems unfolding solve_calls_succeed_def by blast
    with i show "\<not> isl (fst (call_solve env s (AList.update name (xs ! i) base) w1))"
      by (simp add: nth_append)
  qed
  with snoc.IH obtain res w1 where r: "parameter_sweep env name xs s base w = (Inr res, w1)"
    by blast
  have "length xs < length (xs @ [v])" by simp
  moreover have "parameter_sweep env name (take (length xs) (xs @ [v])) s base w = (Inr res, w1)"
    using r by simp
  ultimately have "\<not> isl (fst (call_solve env s (AList.update name ((xs @ [v]) ! length xs) base) w1))"
    using snoc.prems unfolding solve_calls_succeed_def by blast
  then have ok: "\<not> isl (fst (call_solve env s (AList.update name v base) w1))"
    by simp
  obtain r2 w2 where c: "call_solve env s (AList.update name v base) w1 = (r2, w2)"
    by (cases "call_solve env s (AList.update name v base) w1")
  with ok obtain ts ys where "r2 = Inr (ts, ys)"
    by (cases r2) auto
  with c r show ?case
    by (simp add: parameter_sweep_snoc)
qed

text \<open>
  C4. For every parameter name and every list of values, when every underlying \<open>solve\<close> call
  succeeds, \<open>parameter_sweep\<close> returns a list of exactly as many entries as there are values,
  in the order of the input, the first component of the i-th entry being the i-th value.
\<close>

theorem parameter_sweep_order:
  assumes "solve_calls_succeed env name vals s base w"
  shows "\<exists>results w'.
           parameter_sweep env name vals s base w = (Inr results, w') \<and>
           length results = length vals \<and>
           map fst results = vals \<and>
           (\<forall>i < length vals. fst (results ! i) = vals ! i)"
proof -
  from sweep_succeeds [OF assms] obtain results w'
    where r: "parameter_sweep env name vals s base w = (Inr results, w')"
    by blast
  then have m: "map fst results = vals"
    unfolding parameter_sweep_def using sweep_loop_values by fastforce
  then have l: "length results = length vals"
    using length_map [of fst results] by simp
  have "\<forall>i < length vals. fst (results ! i) = vals ! i"
  proof (intro allI impI)
    fix i assume "i < length vals"
    with l have "map fst results ! i = fst (results ! i)" by simp
    with m show "fst (results ! i) = vals ! i" by simp
  qed
  with r m l show ?thesis by blast
qed

lemma call_solve_spawned:
  "length (spawned (snd (call_solve env s kw w))) \<le> Suc (length (spawned w))"
  by (simp add: call_solve_def snd_solve subprocess_run_spawned split: option.splits)

lemma sweep_loop_spawned:
  "sweep_loop env s name base vals acc w = (r, w') \<Longrightarrow>
   length (spawned w') \<le> length (spawned w) + length vals"
proof (induction vals arbitrary: acc w)
  case Nil
  then show ?case by simp
next
  case (Cons v vals)
  obtain r1 w1 where c: "call_solve env s (AList.update name v base) w = (r1, w1)"
    by (cases "call_solve env s (AList.update name v base) w")
  then have le: "length (spawned w1) \<le> Suc (length (spawned w))"
    using call_solve_spawned [of env s "AList.update name v base" w] by simp
  show ?case
  proof (cases r1)
    case (Inl e)
    with Cons.prems c le show ?thesis by (auto simp: Let_def)
  next
    case (Inr p)
    obtain ts ys where "p = (ts, ys)" by (cases p)
    with Inr Cons.prems c
    have "sweep_loop env s name base vals (acc @ [(v, ts, ys)]) w1 = (r, w')"
      by (simp add: Let_def)
    from Cons.IH [OF this] le show ?thesis by simp
  qed
qed

text \<open>
  C6. If the \<open>solve\<close> call for the i-th value fails, \<open>parameter_sweep\<close> fails with that very
  error and no result list; the world it leaves is the one the failing call left, so no
  \<open>solve\<close> call is made for a later value (at most \<open>i + 1\<close> processes have been started).
\<close>

theorem parameter_sweep_aborts:
  assumes "i < length vals"
    and "parameter_sweep env name (take i vals) s base w = (Inr res, w1)"
    and "call_solve env s (AList.update name (vals ! i) base) w1 = (Inl e, w2)"
  shows "parameter_sweep env name vals s base w = (Inl e, w2) \<and>
         length (spawned w2) \<le> length (spawned w) + Suc i"
proof -
  from assms(1) have split: "vals = (take i vals @ [vals ! i]) @ drop (Suc i) vals"
    by (simp add: take_Suc_conv_app_nth [symmetric])
  have a: "parameter_sweep env name (take i vals @ [vals ! i]) s base w = (Inl e, w2)"
    using assms(2,3) by (simp add: parameter_sweep_snoc)
  have "parameter_sweep env name ((take i vals @ [vals ! i]) @ drop (Suc i) vals) s base w = (Inl e, w2)"
    using a unfolding parameter_sweep_def
    by (simp only: sweep_loop_append [of env s name base "take i vals @ [vals ! i]"])  simp
  with split have r: "parameter_sweep env name vals s base w = (Inl e, w2)" by simp
  from assms(2) have "length (spawned w1) \<le> length (spawned w) + length (take i vals)"
    unfolding parameter_sweep_def by (rule sweep_loop_spawned)
  moreover have "length (spawned w2) \<le> Suc (length (spawned w1))"
    using call_solve_spawned [of env s "AList.update name (vals ! i) base" w1] assms(3) by simp
  ultimately have "length (spawned w2) \<le> length (spawned w) + Suc i"
    using assms(1) by simp
  with r show ?thesis by simp
qed


lemmas eval_sweep =
  parameter_sweep_def call_solve_def solve_params_def eval_env demo_parse

lemma sweep3:
  "parameter_sweep (scripted_env [healthy, healthy, healthy]) ''y0'' [1 / 2, 1, 2 :: rat]
     \<lparr>executable_path = ''build/ode_solver''\<rparr> [] world0 =
   (Inr [(1 / 2, [0, 1], [1, 606531 / 1000000]),
         (1, [0, 1], [1, 606531 / 1000000]),
         (2, [0, 1], [1, 606531 / 1000000])],
    \<lparr>spawned = [[''build/ode_solver''], [''build/ode_solver''], [''build/ode_solver'']],
     running = [], killed = [], files = Map.empty\<rparr>)"
  by (simp add: eval_sweep)

lemma calls3:
  "solve_calls_succeed (scripted_env [healthy, healthy, healthy]) ''y0'' [1 / 2, 1, 2 :: rat]
     \<lparr>executable_path = ''build/ode_solver''\<rparr> [] world0"
  by (auto simp add: solve_calls_succeed_def numeral_3_eq_3 less_Suc_eq eval_sweep)

theorem parameter_sweep_order_witness:
  "solve_calls_succeed (scripted_env [healthy, healthy, healthy]) ''y0'' [1 / 2, 1, 2 :: rat]
     \<lparr>executable_path = ''build/ode_solver''\<rparr> [] world0 \<and>
   (\<exists>results w'.
      parameter_sweep (scripted_env [healthy, healthy, healthy]) ''y0'' [1 / 2, 1, 2 :: rat]
        \<lparr>executable_path = ''build/ode_solver''\<rparr> [] world0 = (Inr results, w') \<and>
      length results = 3 \<and> map fst results = [1 / 2, 1, 2])"
  using calls3 parameter_sweep_order [OF calls3] by auto

lemma sweep1:
  "parameter_sweep (scripted_env [healthy, hanging, healthy]) ''y0'' (take 1 [1 / 2, 1, 2 :: rat])
     \<lparr>executable_path = ''build/ode_solver''\<rparr> [] world0 =
   (Inr [(1 / 2, [0, 1], [1, 606531 / 1000000])],
    \<lparr>spawned = [[''build/ode_solver'']], running = [], killed = [], files = Map.empty\<rparr>)"
  by (simp add: eval_sweep)

lemma call2:
  "call_solve (scripted_env [healthy, hanging, healthy]) \<lparr>executable_path = ''build/ode_solver''\<rparr>
     (AList.update ''y0'' ([1 / 2, 1, 2 :: rat] ! 1) [])
     \<lparr>spawned = [[''build/ode_solver'']], running = [], killed = [], files = Map.empty\<rparr> =
   (Inl (RuntimeError ''Fortran solver timed out''),
    \<lparr>spawned = [[''build/ode_solver''], [''build/ode_solver'']], running = [],
     killed = [1], files = Map.empty\<rparr>)"
  by (simp add: eval_sweep)

theorem parameter_sweep_aborts_witness:
  "(1::nat) < length [1 / 2, 1, 2 :: rat] \<and>
   parameter_sweep (scripted_env [healthy, hanging, healthy]) ''y0'' (take 1 [1 / 2, 1, 2 :: rat])
     \<lparr>executable_path = ''build/ode_solver''\<rparr> [] world0 =
   (Inr [(1 / 2, [0, 1], [1, 606531 / 1000000])],
    \<lparr>spawned = [[''build/ode_solver'']], running = [], killed = [], files = Map.empty\<rparr>) \<and>
   call_solve (scripted_env [healthy, hanging, healthy]) \<lparr>executable_path = ''build/ode_solver''\<rparr>
     (AList.update ''y0'' ([1 / 2, 1, 2 :: rat] ! 1) [])
     \<lparr>spawned = [[''build/ode_solver'']], running = [], killed = [], files = Map.empty\<rparr> =
   (Inl (RuntimeError ''Fortran solver timed out''),
    \<lparr>spawned = [[''build/ode_solver''], [''build/ode_solver'']], running = [],
     killed = [1], files = Map.empty\<rparr>) \<and>
   parameter_sweep (scripted_env [healthy, hanging, healthy]) ''y0'' [1 / 2, 1, 2 :: rat]
     \<lparr>executable_path = ''build/ode_solver''\<rparr> [] world0 =
   (Inl (RuntimeError ''Fortran solver timed out''),
    \<lparr>spawned = [[''build/ode_solver''], [''build/ode_solver'']], running = [],
     killed = [1], files = Map.empty\<rparr>)"
proof -
  have i: "(1::nat) < length [1 / 2, 1, 2 :: rat]" by simp
  from parameter_sweep_aborts [OF i sweep1 call2] i sweep1 call2
  show ?thesis by simp
qed


subsection \<open>The output parser\<close>

lemma parse_rows_skip:
  "length (parts_of l) \<noteq> 2 \<Longrightarrow> parse_rows pf (l # ls) ts ys = parse_rows pf ls ts ys"
  by (simp add: Let_def)

lemma parse_rows_read:
  "length (parts_of l) = 2 \<Longrightarrow> pf (parts_of l ! 0) = Inr t \<Longrightarrow> pf (parts_of l ! 1) = Inr y \<Longrightarrow>
   parse_rows pf (l # ls) ts ys = parse_rows pf ls (ts @ [t]) (ys @ [y])"
  by (simp add: Let_def)

lemma parse_rows_raise:
  "unreadable pf l \<Longrightarrow> \<exists>msg. parse_rows pf (l # ls) ts ys = Inl msg"
  by (auto simp: unreadable_def Let_def split: sum.splits)

lemma parse_rows_drop:
  "length (parts_of l) \<noteq> 2 \<Longrightarrow>
   parse_rows pf (a @ l # b) ts ys = parse_rows pf (a @ b) ts ys"
  by (induction a arbitrary: ts ys) (auto simp: Let_def split: sum.splits)

lemma parse_rows_raises_iff:
  "(\<exists>msg. parse_rows pf ls ts ys = Inl msg) \<longleftrightarrow> (\<exists>l \<in> set ls. unreadable pf l)"
proof (induction ls arbitrary: ts ys)
  case Nil
  then show ?case by simp
next
  case (Cons l ls)
  show ?case
  proof (cases "length (parts_of l) = 2")
    case False
    then have "\<not> unreadable pf l" by (simp add: unreadable_def)
    with False Cons.IH [of ts ys] show ?thesis by (simp add: parse_rows_skip)
  next
    case True
    show ?thesis
    proof (cases "unreadable pf l")
      case True
      with parse_rows_raise [OF True] show ?thesis by auto
    next
      case False
      with True obtain t y where "pf (parts_of l ! 0) = Inr t" "pf (parts_of l ! 1) = Inr y"
        unfolding unreadable_def by (metis sum.collapse(2))
      with True False Cons.IH [of "ts @ [t]" "ys @ [y]"] show ?thesis
        by (simp add: parse_rows_read)
    qed
  qed
qed

lemma parse_rows_readable:
  "\<forall>l \<in> set ls. \<not> unreadable pf l \<Longrightarrow>
   parse_rows pf ls ts ys =
     Inr (ts @ map (fst \<circ> sample_of pf) (filter (\<lambda>l. length (parts_of l) = 2) ls),
          ys @ map (snd \<circ> sample_of pf) (filter (\<lambda>l. length (parts_of l) = 2) ls))"
proof (induction ls arbitrary: ts ys)
  case Nil
  then show ?case by simp
next
  case (Cons l ls)
  show ?case
  proof (cases "length (parts_of l) = 2")
    case False
    with Cons show ?thesis by (simp add: parse_rows_skip)
  next
    case True
    with Cons.prems obtain t y where r: "pf (parts_of l ! 0) = Inr t" "pf (parts_of l ! 1) = Inr y"
      unfolding unreadable_def by (metis list.set_intros(1) sum.collapse(2))
    with True Cons show ?thesis
      by (simp add: parse_rows_read sample_of_def)
  qed
qed

lemma data_lines_drop:
  "\<not> is_data_line l \<Longrightarrow> data_lines (a @ l # b) = data_lines (a @ b)"
  by (simp add: data_lines_def)

lemma parse_lines_drop_short:
  "length (parts_of l) \<noteq> 2 \<Longrightarrow> parse_lines pf (a @ l # b) = parse_lines pf (a @ b)"
  by (cases "is_data_line l") (simp_all add: parse_lines_def data_lines_def parse_rows_drop)

lemma parse_output_raises_iff:
  "(\<exists>msg. parse_output pf stdout = Inl msg) \<longleftrightarrow>
   (\<exists>l \<in> set (lines_of stdout). is_data_line l \<and> unreadable pf l)"
  by (auto simp: parse_output_def parse_lines_def parse_rows_raises_iff data_lines_def)

lemma solve_fails_iff_parse:
  assumes "backend env (length (spawned w)) [executable_path self] = Process (Some d) 0 stdout stderr"
    and "d \<le> 30"
  shows "isl (fst (solve env self args w)) \<longleftrightarrow> (\<exists>msg. parse_output (float_of env) stdout = Inl msg)"
  using assms
  by (auto simp: fst_solve fst_subprocess_run timed_out_def split: sum.splits)

text \<open>
  C2, as amended. A line that does not split into exactly two comma-separated fields is
  silently discarded: removing it changes nothing of what parsing returns or raises.
  Parsing raises exactly when some line kept by the filter splits into exactly two fields
  of which one is not read by \<open>float\<close>; and when the backend exits in time with code 0,
  the \<open>solve\<close> call fails exactly in that case.
\<close>

theorem parse_discards_short_lines:
  "(length (parts_of l) \<noteq> 2 \<longrightarrow> parse_lines pf (ls1 @ l # ls2) = parse_lines pf (ls1 @ ls2)) \<and>
   ((\<exists>msg. parse_output pf stdout = Inl msg) \<longleftrightarrow>
      (\<exists>l \<in> set (lines_of stdout). is_data_line l \<and> unreadable pf l)) \<and>
   (backend env (length (spawned w)) [executable_path self] = Process (Some d) 0 stdout stderr \<and>
      d \<le> 30 \<longrightarrow>
    (isl (fst (solve env self args w)) \<longleftrightarrow>
       (\<exists>l \<in> set (lines_of stdout). is_data_line l \<and> unreadable (float_of env) l)))"
  using parse_lines_drop_short [of l pf ls1 ls2] parse_output_raises_iff [of pf stdout]
    solve_fails_iff_parse [of env w self d stdout stderr args]
    parse_output_raises_iff [of "float_of env" stdout]
  by blast

lemma filter_well_formed:
  assumes "\<forall>l \<in> set ls. well_formed pf l \<or> \<not> is_data_line l \<or> length (parts_of l) \<noteq> 2"
  shows "filter (\<lambda>l. length (parts_of l) = 2) (data_lines ls) = filter (well_formed pf) ls"
  unfolding data_lines_def filter_filter
  by (rule filter_cong [OF refl]) (use assms in \<open>auto simp: well_formed_def\<close>)

text \<open>
  C3, as amended. When every line of the text is well formed, or skipped by the filter
  (empty, or beginning with the header), or does not split into exactly two fields, parsing
  yields exactly the samples of the well-formed lines, in order: a series as long as there
  are well-formed lines. In particular the text of the example yields
  \<open>[(0.0, 1.0), (1.0, 0.606531)]\<close>.
\<close>

theorem parse_well_formed_lines:
  assumes "\<forall>l \<in> set (lines_of stdout).
             well_formed pf l \<or> \<not> is_data_line l \<or> length (parts_of l) \<noteq> 2"
  shows "parse_output pf stdout =
           Inr (map (fst \<circ> sample_of pf) (filter (well_formed pf) (lines_of stdout)),
                map (snd \<circ> sample_of pf) (filter (well_formed pf) (lines_of stdout))) \<and>
         parse_output float_dec demo_stdout = Inr ([0, 1], [1, 606531 / 1000000])"
proof -
  have "\<forall>l \<in> set (data_lines (lines_of stdout)). \<not> unreadable pf l"
    using assms by (auto simp: data_lines_def well_formed_def unreadable_def)
  from parse_rows_readable [OF this, of "[]" "[]"] filter_well_formed [OF assms] demo_parse
  show ?thesis by (simp add: parse_output_def parse_lines_def)
qed

text \<open>
  C10. The header rule is a prefix match: every line whose stripped text begins with
  \<open>t,y\<close> is dropped by the filter and contributes no sample, also when it is not the header
  itself, as \<open>t,y,extra\<close> and \<open>t,yield\<close>.
\<close>

theorem header_prefix_skipped:
  assumes "startswith (strip l) ''t,y''"
  shows "l \<notin> set (data_lines ls) \<and> parse_lines pf (ls1 @ l # ls2) = parse_lines pf (ls1 @ ls2)"
  using assms by (simp add: parse_lines_def data_lines_def is_data_line_def)

lemma mixed_lines:
  "lines_of mixed_stdout = [''t,y'', ''0.0,1.0'', ''# step 1'', [], ''1,2,3'', '' 1.0 , 0.5'']"
  by (simp add: mixed_stdout_def lines_of_def strip_def isspace_def NL_def CR_def)

lemma mixed_hyp:
  "\<forall>l \<in> set (lines_of mixed_stdout).
      well_formed float_dec l \<or> \<not> is_data_line l \<or> length (parts_of l) \<noteq> 2"
  unfolding mixed_lines
  by (simp add: well_formed_def eval_text)

theorem parse_well_formed_lines_witness:
  "list_all (\<lambda>l. well_formed float_dec l \<or> \<not> is_data_line l \<or> length (parts_of l) \<noteq> 2)
     (lines_of mixed_stdout) \<and>
   parse_output float_dec mixed_stdout = Inr ([0, 1], [1, 1 / 2])"
proof -
  have f: "filter (well_formed float_dec) (lines_of mixed_stdout) = [''0.0,1.0'', '' 1.0 , 0.5'']"
    unfolding mixed_lines by (simp add: well_formed_def eval_text)
  have s: "sample_of float_dec ''0.0,1.0'' = (0, 1)" "sample_of float_dec '' 1.0 , 0.5'' = (1, 1 / 2)"
    by (simp_all add: sample_of_def eval_text)
  from parse_well_formed_lines [OF mixed_hyp] f s
  have "parse_output float_dec mixed_stdout = Inr ([0, 1], [1, 1 / 2])"
    by simp
  with mixed_hyp show ?thesis
    by (simp only: list_all_iff simp_thms)
qed

lemma garbled_parse:
  "parse_output float_dec garbled_stdout =
     Inl (''could not convert string to float: '' @ [CHR 0x27] @ ''foo'' @ [CHR 0x27])"
  by (simp add: garbled_stdout_def eval_text)

text \<open>
  C2 as stated fails: the line \<open>foo,bar\<close> does not hold two parseable numbers, and it is
  not discarded; the \<open>solve\<close> call fails with \<open>RuntimeError\<close>.
\<close>

theorem solve_fails_on_unreadable_line:
  "fst (solve (scripted_env [garbled]) \<lparr>executable_path = ''build/ode_solver''\<rparr>
          default_args world0) =
     Inl (RuntimeError (''Error running Fortran solver: could not convert string to float: '' @
            [CHR 0x27] @ ''foo'' @ [CHR 0x27]))"
  by (simp add: eval_env garbled_def garbled_parse)

lemma garbled_backend:
  "backend (scripted_env [garbled]) (length (spawned world0))
     [executable_path \<lparr>executable_path = ''build/ode_solver''\<rparr>] =
   Process (Some 1) 0 garbled_stdout [] \<and> (1::nat) \<le> 30"
  by (simp add: scripted_env_def garbled_def world0_def)

lemma garbled_lines: "lines_of garbled_stdout = [''t,y'', ''0.0,1.0'', ''foo,bar'']"
  by (simp add: garbled_stdout_def lines_of_def strip_def isspace_def NL_def)

lemma garbled_unreadable:
  "\<exists>l \<in> set (lines_of garbled_stdout).
      is_data_line l \<and> unreadable (float_of (scripted_env [garbled])) l"
  unfolding garbled_lines
  by (simp add: unreadable_def scripted_env_def eval_text)

lemma short_line: "length (parts_of ''1,2,3'') \<noteq> 2"
  by (simp add: eval_text)

theorem parse_discards_short_lines_witness:
  "length (parts_of ''1,2,3'') \<noteq> 2 \<and>
   parse_lines float_dec ([''0.0,1.0''] @ ''1,2,3'' # [''1.0,0.5'']) =
     parse_lines float_dec ([''0.0,1.0''] @ [''1.0,0.5'']) \<and>
   (backend (scripted_env [garbled]) (length (spawned world0))
      [executable_path \<lparr>executable_path = ''build/ode_solver''\<rparr>] =
    Process (Some 1) 0 garbled_stdout [] \<and> (1::nat) \<le> 30) \<and>
   (\<exists>l \<in> set (lines_of garbled_stdout).
      is_data_line l \<and> unreadable (float_of (scripted_env [garbled])) l) \<and>
   isl (fst (solve (scripted_env [garbled]) \<lparr>executable_path = ''build/ode_solver''\<rparr>
               default_args world0))"
  using parse_discards_short_lines [of "''1,2,3''" float_dec "[''0.0,1.0'']" "[''1.0,0.5'']"
      garbled_stdout "scripted_env [garbled]" world0 "\<lparr>executable_path = ''build/ode_solver''\<rparr>"
      1 "[]" default_args]
    short_line garbled_backend garbled_unreadable
  by blast

text \<open>
  C3 as stated fails: with a header, two well-formed lines and the malformed line
  \<open>n/a,n/a\<close> between them, parsing raises, and does not yield the two samples.
\<close>

theorem parse_raises_between_well_formed_lines:
  "parse_output float_dec interleaved_stdout =
     Inl (''could not convert string to float: '' @ [CHR 0x27] @ ''n/a'' @ [CHR 0x27]) \<and>
   parse_output float_dec interleaved_stdout \<noteq> Inr ([0, 1], [1, 1 / 2])"
  by (simp add: interleaved_stdout_def eval_text)

lemma yield_header: "startswith (strip ''t,yield'') ''t,y''"
  by (simp add: startswith_def strip_def isspace_def)

theorem header_prefix_skipped_witness:
  "startswith (strip ''t,yield'') ''t,y'' \<and>
   ''t,yield'' \<notin> set (data_lines [''t,yield'', ''t,y,extra'', ''0.0,1.0'']) \<and>
   parse_lines float_dec ([] @ ''t,yield'' # [''0.0,1.0'']) = Inr ([0], [1])"
proof -
  have "parse_lines float_dec ([] @ [''0.0,1.0'']) = Inr ([0], [1])"
    by (simp add: eval_text)
  with header_prefix_skipped [OF yield_header, of "[''t,yield'', ''t,y,extra'', ''0.0,1.0'']"
      float_dec "[]" "[''0.0,1.0'']"] yield_header
  show ?thesis by simp
qed

subsection \<open>Writing the series and reading it back\<close>

lemma float_char_plain:
  assumes "is_float_char c"
  shows "\<not> isspace c" "c \<noteq> CHR '',''" "c \<noteq> NL" "c \<noteq> CR" "c \<noteq> CHR 0x22" "c \<noteq> CHR ''t''"
  using assms
  by (auto simp: is_float_char_def is_digit_def isspace_def NL_def CR_def Let_def)

lemma split_on_nonempty: "split_on sep s \<noteq> []"
  by (induction s) (auto simp: Let_def)

lemma split_on_no_sep: "sep \<notin> set a \<Longrightarrow> split_on sep a = [a]"
  by (induction a) (auto simp: Let_def)

lemma split_on_append: "sep \<notin> set a \<Longrightarrow> split_on sep (a @ sep # b) = a # split_on sep b"
  by (induction a) (auto simp: Let_def)

lemma strip_plain:
  assumes "s \<noteq> []" "\<not> isspace (hd s)" "\<not> isspace (last s)" "\<forall>c \<in> set ws. isspace c"
  shows "strip (s @ ws) = s"
proof -
  from assms(1,2) have a: "dropWhile isspace (s @ ws) = s @ ws"
    by (cases s) auto
  from assms(1,3) have b: "dropWhile isspace (rev s) = rev s"
    by (cases s rule: rev_cases) auto
  from assms(4) have "dropWhile isspace (rev ws @ rev s) = dropWhile isspace (rev s)"
    by (intro dropWhile_append2) simp
  with a b show ?thesis by (simp add: strip_def)
qed

lemma concat_terminated:
  "ps \<noteq> [] \<Longrightarrow> concat (map (\<lambda>r. r @ sep) ps) = join sep ps @ sep"
  by (induction sep ps rule: join.induct) auto

lemma split_join_lines:
  "ps \<noteq> [] \<Longrightarrow> \<forall>p \<in> set ps. NL \<notin> set p \<Longrightarrow>
   list_all2 (\<lambda>l p. l = p \<or> l = p @ [CR]) (split_on NL (join [CR, NL] ps)) ps"
proof (induction "[CR, NL]" ps rule: join.induct)
  case 1
  then show ?case by simp
next
  case (2 p)
  then show ?case by (simp add: split_on_no_sep)
next
  case (3 p q ps)
  from 3 have "NL \<notin> set (p @ [CR])" by (simp add: NL_def CR_def)
  from split_on_append [OF this, of "join [CR, NL] (q # ps)"]
  have "split_on NL (join [CR, NL] (p # q # ps)) = (p @ [CR]) # split_on NL (join [CR, NL] (q # ps))"
    by simp
  with 3 show ?case by simp
qed

lemma csv_field_plain: "list_all is_float_char s \<Longrightarrow> csv_field s = s"
  by (auto simp: csv_field_def list_all_iff dest: float_char_plain)

lemma writerow_header: "writerow [''t'', ''y''] = ''t,y'' @ [CR, NL]"
  by (simp add: writerow_def csv_field_def NL_def CR_def)

lemma writerow_pair:
  "roundtrips env t \<Longrightarrow> roundtrips env y \<Longrightarrow>
   writerow [float_str env t, float_str env y] = row_text env (t, y) @ [CR, NL]"
  by (simp add: writerow_def csv_field_plain roundtrips_def row_text_def)

lemma csv_text_rows:
  assumes "list_all (roundtrips env) (map fst tys @ map snd tys)"
  shows "concat (map (\<lambda>(t, y). writerow [float_str env t, float_str env y]) tys) =
         concat (map (\<lambda>r. r @ [CR, NL]) (map (row_text env) tys))"
  using assms by (induction tys) (auto simp: writerow_pair)

lemma csv_text_join:
  assumes "list_all (roundtrips env) (map fst tys @ map snd tys)"
  shows "writerow [''t'', ''y''] @
           concat (map (\<lambda>(t, y). writerow [float_str env t, float_str env y]) tys) =
         join [CR, NL] (''t,y'' # map (row_text env) tys) @ [CR, NL]"
  using csv_text_rows [OF assms] concat_terminated [of "''t,y'' # map (row_text env) tys" "[CR, NL]"]
  by (simp add: writerow_header)

lemma row_text_shape:
  assumes "roundtrips env t" "roundtrips env y"
  shows "row_text env (t, y) \<noteq> []"
    and "NL \<notin> set (row_text env (t, y))"
    and "\<not> isspace (hd (row_text env (t, y)))"
    and "\<not> isspace (last (row_text env (t, y)))"
    and "hd (row_text env (t, y)) \<noteq> CHR ''t''"
    and "split_on (CHR '','') (row_text env (t, y)) = [float_str env t, float_str env y]"
proof -
  let ?u = "float_str env t" and ?v = "float_str env y"
  from assms have u: "?u \<noteq> []" "\<forall>c \<in> set ?u. is_float_char c"
    and v: "?v \<noteq> []" "\<forall>c \<in> set ?v. is_float_char c"
    by (simp_all add: roundtrips_def list_all_iff)
  show "row_text env (t, y) \<noteq> []" by (simp add: row_text_def)
  show "NL \<notin> set (row_text env (t, y))"
    using u v float_char_plain(3) by (auto simp: row_text_def NL_def)
  from u have "hd ?u \<in> set ?u" by simp
  with u have hu: "is_float_char (hd ?u)" by blast
  from v have "last ?v \<in> set ?v" by simp
  with v have lv: "is_float_char (last ?v)" by blast
  from u hu show "\<not> isspace (hd (row_text env (t, y)))"
    by (simp add: row_text_def float_char_plain)
  from v lv show "\<not> isspace (last (row_text env (t, y)))"
    by (simp add: row_text_def float_char_plain)
  from u hu show "hd (row_text env (t, y)) \<noteq> CHR ''t''"
    by (simp add: row_text_def float_char_plain)
  have "CHR '','' \<notin> set ?u" "CHR '','' \<notin> set ?v"
    using u v float_char_plain(2) by blast+
  then show "split_on (CHR '','') (row_text env (t, y)) = [?u, ?v]"
    by (simp add: row_text_def split_on_append split_on_no_sep)
qed

lemma isspace_CR: "isspace CR"
  by (simp add: isspace_def CR_def)

lemma isspace_NL: "isspace NL"
  by (simp add: isspace_def NL_def)

lemma row_line_reads:
  assumes "roundtrips env t" "roundtrips env y"
    and "l = row_text env (t, y) \<or> l = row_text env (t, y) @ [CR]"
  shows "is_data_line l" and "parts_of l = [float_str env t, float_str env y]"
proof -
  note sh = row_text_shape [OF assms(1,2)]
  have "strip (row_text env (t, y) @ []) = row_text env (t, y)"
    by (rule strip_plain) (use sh in simp_all)
  moreover have "strip (row_text env (t, y) @ [CR]) = row_text env (t, y)"
    by (rule strip_plain) (use sh isspace_CR in simp_all)
  ultimately have st: "strip l = row_text env (t, y)"
    using assms(3) by auto
  from sh(1,5) have "\<not> startswith (row_text env (t, y)) ''t,y''"
    by (cases "row_text env (t, y)") (auto simp: startswith_def)
  with st sh(1) assms(3) show "is_data_line l"
    by (auto simp: is_data_line_def)
  from st sh(6) show "parts_of l = [float_str env t, float_str env y]"
    by (simp add: parts_of_def)
qed

lemma parse_rows_row_lines:
  "list_all2 (\<lambda>l p. l = row_text env p \<or> l = row_text env p @ [CR]) ls tys \<Longrightarrow>
   list_all (roundtrips env) (map fst tys @ map snd tys) \<Longrightarrow>
   data_lines ls = ls \<and>
   (\<forall>ts ys. parse_rows (float_of env) ls ts ys = Inr (ts @ map fst tys, ys @ map snd tys))"
proof (induction rule: list_all2_induct)
  case Nil
  show ?case by (simp add: data_lines_def)
next
  case (Cons l ls p tys)
  obtain t y where p: "p = (t, y)" by (cases p)
  from Cons.prems p have rt: "roundtrips env t" "roundtrips env y"
    and rest: "list_all (roundtrips env) (map fst tys @ map snd tys)"
    by simp_all
  from Cons.hyps(1) p have l: "l = row_text env (t, y) \<or> l = row_text env (t, y) @ [CR]" by simp
  note rd = row_line_reads [OF rt l]
  note ih = Cons.IH [OF rest]
  from ih rd(1) have d: "data_lines (l # ls) = l # ls"
    by (simp add: data_lines_def)
  from rt have "float_of env (float_str env t) = Inr t" "float_of env (float_str env y) = Inr y"
    by (simp_all add: roundtrips_def)
  with rd(2) ih p
  have "\<forall>ts ys. parse_rows (float_of env) (l # ls) ts ys
          = Inr (ts @ map fst (p # tys), ys @ map snd (p # tys))"
    by (simp add: Let_def)
  with d show ?case by simp
qed

lemma header_line_skipped:
  assumes "l = ''t,y'' \<or> l = ''t,y'' @ [CR]"
  shows "\<not> is_data_line l"
  using assms by (auto simp: is_data_line_def startswith_def strip_def isspace_def CR_def)

lemma join_nonempty: "ps \<noteq> [] \<Longrightarrow> hd ps \<noteq> [] \<Longrightarrow> join sep ps \<noteq> []"
  by (induction sep ps rule: join.induct) auto

lemma join_hd: "ps \<noteq> [] \<Longrightarrow> hd ps \<noteq> [] \<Longrightarrow> hd (join sep ps) = hd (hd ps)"
  by (induction sep ps rule: join.induct) auto

lemma join_last:
  "ps \<noteq> [] \<Longrightarrow> \<forall>p \<in> set ps. p \<noteq> [] \<Longrightarrow> last (join sep ps) = last (last ps)"
proof (induction sep ps rule: join.induct)
  case (3 sep p q ps)
  then have "join sep (q # ps) \<noteq> []"
    by (intro join_nonempty) simp_all
  with 3 show ?case by simp
qed simp_all

lemma parse_csv_text:
  assumes "list_all (roundtrips env) (map fst tys @ map snd tys)"
  shows "parse_output (float_of env) (join [CR, NL] (''t,y'' # map (row_text env) tys) @ [CR, NL])
           = Inr (map fst tys, map snd tys)"
proof -
  let ?ps = "''t,y'' # map (row_text env) tys"
  let ?body = "join [CR, NL] ?ps"
  have shape: "\<forall>p \<in> set ?ps. p \<noteq> [] \<and> NL \<notin> set p \<and> \<not> isspace (last p)"
  proof
    fix p assume "p \<in> set ?ps"
    then consider "p = ''t,y''" | ty where "ty \<in> set tys" "p = row_text env ty" by auto
    then show "p \<noteq> [] \<and> NL \<notin> set p \<and> \<not> isspace (last p)"
    proof cases
      case 1
      then show ?thesis by (simp add: NL_def isspace_def)
    next
      case 2
      obtain t y where ty: "ty = (t, y)" by (cases ty)
      with 2 have "t \<in> fst ` set tys" "y \<in> snd ` set tys"
        by force+
      with assms have "roundtrips env t" "roundtrips env y"
        by (auto simp: list_all_iff)
      from row_text_shape [OF this] 2 ty show ?thesis by simp
    qed
  qed
  have b1: "?body \<noteq> []" by (rule join_nonempty) simp_all
  have b2: "\<not> isspace (hd ?body)"
    using join_hd [of ?ps "[CR, NL]"] by (simp add: isspace_def)
  have "last ?ps \<in> set ?ps" by (rule last_in_set) simp
  with shape have "\<not> isspace (last (last ?ps))" by blast
  moreover have "last ?body = last (last ?ps)"
    by (rule join_last) (use shape in auto)
  ultimately have b3: "\<not> isspace (last ?body)" by simp
  have "strip (?body @ [CR, NL]) = ?body"
    by (rule strip_plain) (use b1 b2 b3 isspace_CR isspace_NL in auto)
  then have lines: "lines_of (?body @ [CR, NL]) = split_on NL ?body"
    by (simp add: lines_of_def)
  have "list_all2 (\<lambda>l p. l = p \<or> l = p @ [CR]) (split_on NL ?body) ?ps"
    by (rule split_join_lines) (use shape in auto)
  then obtain l0 ls where sp: "split_on NL ?body = l0 # ls"
    and l0: "l0 = ''t,y'' \<or> l0 = ''t,y'' @ [CR]"
    and ls: "list_all2 (\<lambda>l p. l = p \<or> l = p @ [CR]) ls (map (row_text env) tys)"
    by (auto simp: list_all2_Cons2)
  from ls have "list_all2 (\<lambda>l p. l = row_text env p \<or> l = row_text env p @ [CR]) ls tys"
    by (simp add: list_all2_map2)
  from parse_rows_row_lines [OF this assms]
  have dl: "data_lines ls = ls"
    and pr: "parse_rows (float_of env) ls [] [] = Inr (map fst tys, map snd tys)"
    by simp_all
  from header_line_skipped [OF l0] dl have "data_lines (l0 # ls) = ls"
    by (simp add: data_lines_def)
  with lines sp pr show ?thesis
    by (simp add: parse_output_def parse_lines_def)
qed

text \<open>
  C8. For every successful \<open>solve\<close>, \<open>solve_to_file\<close> writes the header row \<open>t,y\<close> and one
  comma-separated row per sample, and parsing the text of the written file gives the same
  series back, when text formatting loses nothing of the values of the series.
\<close>

theorem solve_to_file_roundtrip:
  assumes "call_solve env self kwargs w = (Inr (t_vals, y_vals), w1)"
    and "open_error env output_path = None"
    and "list_all (roundtrips env) (t_vals @ y_vals)"
  shows "solve_to_file env self output_path kwargs w =
           (Inr output_path,
            w1\<lparr>files := (files w1)(output_path \<mapsto> csv_text env t_vals y_vals)\<rparr>) \<and>
         parse_output (float_of env) (csv_text env t_vals y_vals) = Inr (t_vals, y_vals)"
proof -
  from assms(1) have "fst (call_solve env self kwargs w) = Inr (t_vals, y_vals)" by simp
  then have len: "length t_vals = length y_vals"
    by (auto simp: call_solve_def split: option.splits dest: solve_lengths)
  then have z: "map fst (zip t_vals y_vals) = t_vals" "map snd (zip t_vals y_vals) = y_vals"
    by simp_all
  with assms(3)
  have rt: "list_all (roundtrips env) (map fst (zip t_vals y_vals) @ map snd (zip t_vals y_vals))"
    by simp
  have "csv_text env t_vals y_vals =
          join [CR, NL] (''t,y'' # map (row_text env) (zip t_vals y_vals)) @ [CR, NL]"
    unfolding csv_text_def by (rule csv_text_join [OF rt])
  with parse_csv_text [OF rt] z
  have "parse_output (float_of env) (csv_text env t_vals y_vals) = Inr (t_vals, y_vals)"
    by simp
  with assms(1,2) show ?thesis
    by (simp add: solve_to_file_def)
qed

lemma call_solve_healthy:
  "call_solve (scripted_env [healthy]) \<lparr>executable_path = ''build/ode_solver''\<rparr>
     ([] :: (string \<times> rat) list) world0 =
     (Inr ([0, 1], [1, 606531 / 1000000]),
      \<lparr>spawned = [[''build/ode_solver'']], running = [], killed = [], files = Map.empty\<rparr>)"
  by (simp add: call_solve_def eval_env demo_parse)

lemma open_healthy: "open_error (scripted_env [healthy]) ''out.csv'' = None"
  by (simp add: scripted_env_def)

lemma demo_roundtrips:
  "list_all (roundtrips (scripted_env [healthy])) ([0, 1] @ [1, 606531 / 1000000])"
  by (simp add: roundtrips_def scripted_env_def demo_str_def is_float_char_def eval_text)

theorem solve_to_file_roundtrip_witness:
  "call_solve (scripted_env [healthy]) \<lparr>executable_path = ''build/ode_solver''\<rparr>
     ([] :: (string \<times> rat) list) world0 =
     (Inr ([0, 1], [1, 606531 / 1000000]),
      \<lparr>spawned = [[''build/ode_solver'']], running = [], killed = [], files = Map.empty\<rparr>) \<and>
   open_error (scripted_env [healthy]) ''out.csv'' = None \<and>
   list_all (roundtrips (scripted_env [healthy])) ([0, 1] @ [1, 606531 / 1000000]) \<and>
   csv_text (scripted_env [healthy]) [0, 1] [1, 606531 / 1000000] =
     ''t,y'' @ [CR, NL] @ ''0.0,1.0'' @ [CR, NL] @ ''1.0,0.606531'' @ [CR, NL] \<and>
   fst (solve_to_file (scripted_env [healthy]) \<lparr>executable_path = ''build/ode_solver''\<rparr>
          ''out.csv'' ([] :: (string \<times> rat) list) world0) = Inr ''out.csv'' \<and>
   parse_output (float_of (scripted_env [healthy]))
     (csv_text (scripted_env [healthy]) [0, 1] [1, 606531 / 1000000]) =
     Inr ([0, 1], [1, 606531 / 1000000])"
proof -
  have t: "csv_text (scripted_env [healthy]) [0, 1] [1, 606531 / 1000000] =
     ''t,y'' @ [CR, NL] @ ''0.0,1.0'' @ [CR, NL] @ ''1.0,0.606531'' @ [CR, NL]"
    by (simp add: csv_text_def writerow_def csv_field_def scripted_env_def demo_str_def
        NL_def CR_def)
  from solve_to_file_roundtrip [OF call_solve_healthy open_healthy demo_roundtrips]
    call_solve_healthy open_healthy demo_roundtrips t
  show ?thesis by simp
qed

end
